theory Spec2Isabelle
  imports Complex_Main "HOL-Library.Product_Lexorder"
begin

section \<open>Energy data toolkit: the analytical core of energy\_toolkit.py\<close>

text \<open>
  The development embeds the methods of \<open>ProductionDataProcessor\<close>, \<open>LogFileAnalyzer\<close>
  and \<open>TimeSeriesAnalyzer\<close> as CPython 3.11 runs them. Conventions of the embedding:
  \<^item> a Python float is a \<open>pyfloat\<close>: a finite double, given by its value, or one of
    \<open>inf\<close>, \<open>-inf\<close>, \<open>nan\<close>. Every arithmetic operation rounds its exact result to the
    nearest double, ties to even (\<open>rnd\<close>). The two zeros are one value, \<open>Fin 0\<close>; they
    compare equal in Python and no operation used here tells them apart;
  \<^item> a series is a list of floats, as \<open>data: List[float]\<close> says; an int in a series
    stands for the double of the same value, and the two give the same results below
    \<open>2^53\<close>;
  \<^item> a Python \<open>str\<close> is a \<open>string\<close> of code points below 256;
  \<^item> a production record (one row of \<open>csv.DictReader\<close>) is a map from field names to
    values; the reader stores a string, or \<open>None\<close> for a field that a short row lacks;
  \<^item> an exception is a value \<open>Inl e\<close> of a sum type; \<open>try\<close>/\<open>except ValueError\<close> catches
    exactly \<open>Inl ValueError\<close>;
  \<^item> the parser of \<open>float\<close> on strings, the order that \<open>sorted\<close> gives to keys that
    include \<open>nan\<close>, and the \<open>re\<close> engine are library code that is not modelled; they are
    parameters of the functions that call them.
\<close>

subsection \<open>Exceptions and floats\<close>

datatype py_error =
  ValueError | TypeError | KeyError | ZeroDivisionError | OverflowError | AttributeError
  | StatisticsError | ReError | RecursionError | OtherError string

type_synonym 'a result = "py_error + 'a"

datatype pyfloat = Fin real | PInf | NInf | NaN

text \<open>Comparisons of floats are exact; every comparison with \<open>nan\<close> is false.\<close>

fun flt :: "pyfloat \<Rightarrow> pyfloat \<Rightarrow> bool" where
  "flt (Fin x) (Fin y) = (x < y)"
| "flt (Fin x) PInf = True"
| "flt NInf (Fin y) = True"
| "flt NInf PInf = True"
| "flt a b = False"

definition fgt :: "pyfloat \<Rightarrow> pyfloat \<Rightarrow> bool" where
  "fgt a b = flt b a"

definition fle :: "pyfloat \<Rightarrow> pyfloat \<Rightarrow> bool" where
  "fle a b = (flt a b \<or> (a = b \<and> a \<noteq> NaN))"

fun is_finite :: "pyfloat \<Rightarrow> bool" where
  "is_finite (Fin x) = True"
| "is_finite a = False"

fun fin_value :: "pyfloat \<Rightarrow> real" where
  "fin_value (Fin x) = x"
| "fin_value a = 0"

fun fneg :: "pyfloat \<Rightarrow> pyfloat" where
  "fneg (Fin x) = Fin (- x)"
| "fneg PInf = NInf"
| "fneg NInf = PInf"
| "fneg NaN = NaN"

fun fabs :: "pyfloat \<Rightarrow> pyfloat" where
  "fabs (Fin x) = Fin \<bar>x\<bar>"
| "fabs PInf = PInf"
| "fabs NInf = PInf"
| "fabs NaN = NaN"

text \<open>Rounding to binary64. \<open>binade x\<close> is the exponent \<open>e\<close> with \<open>2^e \<le> |x| < 2^(e+1)\<close>; the
  doubles of that binade are the multiples of \<open>2^(e-52)\<close>, and below \<open>2^-1022\<close> (the
  subnormals) the multiples of \<open>2^-1074\<close>. A result that rounds to \<open>2^1024\<close> or beyond
  overflows.\<close>

function binade_up :: "real \<Rightarrow> int" where
  "binade_up x = (if x < 2 then 0 else binade_up (x / 2) + 1)"
  by pat_completeness auto
termination
proof (relation "measure (\<lambda>x. nat \<lfloor>x\<rfloor>)")
  show "wf (measure (\<lambda>x::real. nat \<lfloor>x\<rfloor>))" by simp
next
  fix x :: real
  assume "\<not> x < 2"
  then have "x / 2 \<le> x - 1" by simp
  then have "\<lfloor>x / 2\<rfloor> \<le> \<lfloor>x - 1\<rfloor>" by (rule floor_mono)
  moreover have "2 \<le> \<lfloor>x\<rfloor>" using \<open>\<not> x < 2\<close> by (simp add: le_floor_iff)
  ultimately show "(x / 2, x) \<in> measure (\<lambda>x. nat \<lfloor>x\<rfloor>)" by simp
qed

function binade_down :: "real \<Rightarrow> int" where
  "binade_down x = (if x \<le> 0 \<or> 1 \<le> x then 0 else binade_down (2 * x) - 1)"
  by pat_completeness auto
termination
proof (relation "measure (\<lambda>x. nat \<lceil>1 / x\<rceil>)")
  show "wf (measure (\<lambda>x::real. nat \<lceil>1 / x\<rceil>))" by simp
next
  fix x :: real
  assume a: "\<not> (x \<le> 0 \<or> 1 \<le> x)"
  then have x: "0 < x" "x < 1" by auto
  then have y: "1 < 1 / x" by simp
  then have c: "2 \<le> \<lceil>1 / x\<rceil>" by (simp add: less_ceiling_iff le_less) linarith
  have "1 / (2 * x) = (1 / x) / 2" by simp
  also have "\<dots> \<le> of_int \<lceil>1 / x\<rceil> / 2" by (simp add: divide_right_mono)
  also have "\<dots> \<le> of_int (\<lceil>1 / x\<rceil> - 1)" using c by simp
  finally have "1 / (2 * x) \<le> of_int (\<lceil>1 / x\<rceil> - 1)" .
  then have "\<lceil>1 / (2 * x)\<rceil> \<le> \<lceil>1 / x\<rceil> - 1" by (rule ceiling_le)
  then have "nat \<lceil>1 / (2 * x)\<rceil> < nat \<lceil>1 / x\<rceil>" using c by linarith
  then show "(2 * x, x) \<in> measure (\<lambda>x. nat \<lceil>1 / x\<rceil>)" by (simp only: in_measure)
qed

declare binade_up.simps [simp del] binade_down.simps [simp del]

definition binade :: "real \<Rightarrow> int" where
  "binade x = (if 1 \<le> \<bar>x\<bar> then binade_up \<bar>x\<bar> else binade_down \<bar>x\<bar>)"

definition pow2 :: "int \<Rightarrow> real" where
  "pow2 e = (if 0 \<le> e then 2 ^ nat e else 1 / 2 ^ nat (- e))"

definition round_half_even :: "real \<Rightarrow> int" where
  "round_half_even x =
     (if x - of_int \<lfloor>x\<rfloor> < 1 / 2 then \<lfloor>x\<rfloor>
      else if 1 / 2 < x - of_int \<lfloor>x\<rfloor> then \<lfloor>x\<rfloor> + 1
      else if even \<lfloor>x\<rfloor> then \<lfloor>x\<rfloor> else \<lfloor>x\<rfloor> + 1)"

definition rnd :: "real \<Rightarrow> pyfloat" where
  "rnd x =
     (if x = 0 then Fin 0
      else
        (let q = pow2 (max (binade x) (- 1022) - 52);
             y = of_int (round_half_even (x / q)) * q
         in if 2 ^ 1024 \<le> \<bar>y\<bar> then (if 0 < x then PInf else NInf) else Fin y))"

text \<open>The operations \<open>+\<close>, \<open>-\<close>, \<open>*\<close> and \<open>/\<close> on floats. \<open>fdiv\<close> is the quotient by a divisor
  that is not zero; \<open>float_truediv\<close> is Python's \<open>/\<close>, which raises on a zero divisor.\<close>

fun fadd :: "pyfloat \<Rightarrow> pyfloat \<Rightarrow> pyfloat" where
  "fadd (Fin x) (Fin y) = rnd (x + y)"
| "fadd NaN b = NaN"
| "fadd a NaN = NaN"
| "fadd PInf NInf = NaN"
| "fadd NInf PInf = NaN"
| "fadd PInf b = PInf"
| "fadd NInf b = NInf"
| "fadd a PInf = PInf"
| "fadd a NInf = NInf"

definition fsub :: "pyfloat \<Rightarrow> pyfloat \<Rightarrow> pyfloat" where
  "fsub a b = fadd a (fneg b)"

fun fmul :: "pyfloat \<Rightarrow> pyfloat \<Rightarrow> pyfloat" where
  "fmul (Fin x) (Fin y) = rnd (x * y)"
| "fmul NaN b = NaN"
| "fmul a NaN = NaN"
| "fmul (Fin x) b = (if x = 0 then NaN else if (0 < x) = (b = PInf) then PInf else NInf)"
| "fmul a (Fin y) = (if y = 0 then NaN else if (0 < y) = (a = PInf) then PInf else NInf)"
| "fmul a b = (if a = b then PInf else NInf)"

fun fdiv :: "pyfloat \<Rightarrow> pyfloat \<Rightarrow> pyfloat" where
  "fdiv (Fin x) (Fin y) = rnd (x / y)"
| "fdiv NaN b = NaN"
| "fdiv a NaN = NaN"
| "fdiv (Fin x) b = Fin 0"
| "fdiv a (Fin y) = (if (0 < y) = (a = PInf) then PInf else NInf)"
| "fdiv a b = NaN"

definition float_truediv :: "pyfloat \<Rightarrow> pyfloat \<Rightarrow> pyfloat result" where
  "float_truediv a b = (if b = Fin 0 then Inl ZeroDivisionError else Inr (fdiv a b))"

text \<open>The conversion of an int to a float rounds, and raises OverflowError beyond the
  range of the doubles.\<close>

definition int_to_float :: "int \<Rightarrow> pyfloat result" where
  "int_to_float k = (case rnd (of_int k) of Fin x \<Rightarrow> Inr (Fin x) | _ \<Rightarrow> Inl OverflowError)"

subsection \<open>Python values\<close>

datatype pyval = PNone | PInt int | PFloat pyfloat | PStr string

type_synonym float_parser = "string \<Rightarrow> pyfloat option"

text \<open>\<open>float(x)\<close>: an int or a float converts, \<open>None\<close> raises TypeError; a string goes
  through the parser, and a string that is no float literal raises ValueError.\<close>

fun py_float :: "float_parser \<Rightarrow> pyval \<Rightarrow> pyfloat result" where
  "py_float pf PNone = Inl TypeError"
| "py_float pf (PInt k) = int_to_float k"
| "py_float pf (PFloat x) = Inr x"
| "py_float pf (PStr s) = (case pf s of None \<Rightarrow> Inl ValueError | Some x \<Rightarrow> Inr x)"



text \<open>\<open>d[k]\<close> raises KeyError on a missing key; \<open>d.get(k, default)\<close> does not.\<close>

type_synonym production_record = "string \<rightharpoonup> pyval"

definition subscript :: "production_record \<Rightarrow> string \<Rightarrow> pyval result" where
  "subscript d k = (case d k of None \<Rightarrow> Inl KeyError | Some v \<Rightarrow> Inr v)"

definition dict_get :: "production_record \<Rightarrow> string \<Rightarrow> pyval \<Rightarrow> pyval" where
  "dict_get d k dflt = (case d k of None \<Rightarrow> dflt | Some v \<Rightarrow> v)"

text \<open>\<open>try: body except ValueError: handler\<close>.\<close>

definition try_except_ValueError :: "'a result \<Rightarrow> 'a result \<Rightarrow> 'a result" where
  "try_except_ValueError body handler = (if body = Inl ValueError then handler else body)"

text \<open>Slices: an index below zero counts from the end, and both ends are clamped to
  the list.\<close>

definition slice_index :: "nat \<Rightarrow> int \<Rightarrow> nat" where
  "slice_index len k = (if k < 0 then nat (int len + k) else min (nat k) len)"


definition slice_to :: "'a list \<Rightarrow> int \<Rightarrow> 'a list" where
  "slice_to xs j = take (slice_index (length xs) j) xs"

definition slice_from :: "'a list \<Rightarrow> int \<Rightarrow> 'a list" where
  "slice_from xs i = drop (slice_index (length xs) i) xs"

text \<open>A float parser for the examples: an optional sign, digits, and an optional
  fraction, rounded to a double.\<close>

definition is_digit :: "char \<Rightarrow> bool" where
  "is_digit c = (of_char c \<ge> (48::nat) \<and> of_char c \<le> (57::nat))"

fun digits_value :: "nat \<Rightarrow> string \<Rightarrow> nat" where
  "digits_value acc [] = acc"
| "digits_value acc (c # cs) = digits_value (10 * acc + (of_char c - 48)) cs"

definition unsigned_decimal :: "string \<Rightarrow> real option" where
  "unsigned_decimal s =
     (let ip = takeWhile is_digit s; rest = dropWhile is_digit s in
      if rest = [] then (if ip = [] then None else Some (real (digits_value 0 ip)))
      else if hd rest = CHR ''.'' \<and> list_all is_digit (tl rest) \<and> (ip \<noteq> [] \<or> tl rest \<noteq> [])
      then Some (real (digits_value 0 ip)
                 + real (digits_value 0 (tl rest)) / 10 ^ length (tl rest))
      else None)"

definition decimal_literal :: float_parser where
  "decimal_literal s =
     (case s of
        [] \<Rightarrow> None
      | c # cs \<Rightarrow>
          if c = CHR ''-'' then map_option (\<lambda>x. rnd (- x)) (unsigned_decimal cs)
          else if c = CHR ''+'' then map_option rnd (unsigned_decimal cs)
          else map_option rnd (unsigned_decimal s))"

subsection \<open>The statistics module\<close>

text \<open>\<open>statistics.mean\<close> raises StatisticsError on an empty sequence. On finite floats
  it returns the exact mean, rounded once. When some value is not finite, it returns
  the float sum of the values that are not finite, divided by the count.\<close>

definition mean_float :: "pyfloat list \<Rightarrow> pyfloat" where
  "mean_float xs =
     (if list_all is_finite xs
      then rnd (sum_list (map fin_value xs) / real (length xs))
      else fdiv (foldl fadd (Fin 0) (filter (\<lambda>x. \<not> is_finite x) xs))
             (Fin (real (length xs))))"

definition statistics_mean :: "pyfloat list \<Rightarrow> pyfloat result" where
  "statistics_mean xs = (if xs = [] then Inl StatisticsError else Inr (mean_float xs))"

text \<open>\<open>statistics.stdev\<close> (the sample standard deviation, denominator \<open>n - 1\<close>) raises
  StatisticsError on fewer than two values. On finite floats it returns the square
  root of the exact sample variance, rounded once, and raises OverflowError when that
  is beyond the doubles. When some value is not finite, it raises AttributeError.\<close>

definition sample_variance :: "real list \<Rightarrow> real" where
  "sample_variance vs =
     (let m = sum_list vs / real (length vs)
      in sum_list (map (\<lambda>x. (x - m)\<^sup>2) vs) / real (length vs - 1))"

definition statistics_stdev :: "pyfloat list \<Rightarrow> pyfloat result" where
  "statistics_stdev xs =
     (if length xs < 2 then Inl StatisticsError
      else if \<not> list_all is_finite xs then Inl AttributeError
      else (case rnd (sqrt (sample_variance (map fin_value xs))) of
              Fin s \<Rightarrow> Inr (Fin s)
            | _ \<Rightarrow> Inl OverflowError))"

subsection \<open>ProductionDataProcessor.validate\_data\<close>

text \<open>The error dictionaries \<open>{'row': .., 'error': .., 'value': ..}\<close>.\<close>

record validation_error =
  err_row :: nat
  err_error :: string
  err_value :: pyval

text \<open>One iteration of the loop over \<open>enumerate(self.data)\<close>: the guard by key presence,
  the \<open>try\<close> body and the \<open>except ValueError\<close> handler.\<close>

definition validate_row ::
  "float_parser \<Rightarrow> nat \<Rightarrow> production_record \<Rightarrow> validation_error list \<Rightarrow> validation_error list result"
where
  "validate_row pf i r errors =
     (if ''production'' \<in> dom r then
        try_except_ValueError
          (case subscript r ''production'' of
             Inl e \<Rightarrow> Inl e
           | Inr v \<Rightarrow>
               (case py_float pf v of
                  Inl e \<Rightarrow> Inl e
                | Inr pval \<Rightarrow>
                    if flt pval (Fin 0) then
                      Inr (errors @ [\<lparr>err_row = i + 1, err_error = ''Negative production value'',
                                      err_value = PFloat pval\<rparr>])
                    else Inr errors))
          (case subscript r ''production'' of
             Inl e \<Rightarrow> Inl e
           | Inr v \<Rightarrow>
               Inr (errors @ [\<lparr>err_row = i + 1, err_error = ''Invalid production value'',
                               err_value = v\<rparr>]))
      else Inr errors)"

fun validate_loop ::
  "float_parser \<Rightarrow> nat \<Rightarrow> production_record list \<Rightarrow> validation_error list \<Rightarrow> validation_error list result"
where
  "validate_loop pf i [] errors = Inr errors"
| "validate_loop pf i (r # rest) errors =
     (case validate_row pf i r errors of
        Inl e \<Rightarrow> Inl e
      | Inr errors' \<Rightarrow> validate_loop pf (i + 1) rest errors')"

definition validate_data :: "float_parser \<Rightarrow> production_record list \<Rightarrow> validation_error list result" where
  "validate_data pf data = validate_loop pf 0 data []"

text \<open>The contract in the words of the specification, for a record whose production,
  when present, is a string: what the record at a 1-based row index contributes.\<close>

definition string_production :: "production_record \<Rightarrow> bool" where
  "string_production r =
     (case r ''production'' of None \<Rightarrow> True | Some (PStr s) \<Rightarrow> True | Some v \<Rightarrow> False)"

definition row_errors_spec :: "float_parser \<Rightarrow> nat \<Rightarrow> production_record \<Rightarrow> validation_error list" where
  "row_errors_spec pf n r =
     (case r ''production'' of
        Some (PStr s) \<Rightarrow>
          (case pf s of
             None \<Rightarrow> [\<lparr>err_row = n, err_error = ''Invalid production value'', err_value = PStr s\<rparr>]
           | Some x \<Rightarrow>
               if flt x (Fin 0)
               then [\<lparr>err_row = n, err_error = ''Negative production value'', err_value = PFloat x\<rparr>]
               else [])
      | _ \<Rightarrow> [])"

fun validation_errors_from :: "float_parser \<Rightarrow> nat \<Rightarrow> production_record list \<Rightarrow> validation_error list" where
  "validation_errors_from pf n [] = []"
| "validation_errors_from pf n (r # rest) = row_errors_spec pf n r @ validation_errors_from pf (n + 1) rest"

definition validation_errors_spec :: "float_parser \<Rightarrow> production_record list \<Rightarrow> validation_error list" where
  "validation_errors_spec pf data = validation_errors_from pf 1 data"

subsection \<open>ProductionDataProcessor.calculate\_daily\_average\<close>

text \<open>The loop that fills \<open>productions\<close>; the handler is \<open>continue\<close>.\<close>

fun productions_loop :: "float_parser \<Rightarrow> production_record list \<Rightarrow> pyfloat list \<Rightarrow> pyfloat list result" where
  "productions_loop pf [] productions = Inr productions"
| "productions_loop pf (r # rest) productions =
     (case try_except_ValueError
             (case py_float pf (dict_get r ''production'' (PInt 0)) of
                Inl e \<Rightarrow> Inl e
              | Inr x \<Rightarrow> Inr (productions @ [x]))
             (Inr productions)
      of
        Inl e \<Rightarrow> Inl e
      | Inr productions' \<Rightarrow> productions_loop pf rest productions')"

definition calculate_daily_average :: "float_parser \<Rightarrow> production_record list \<Rightarrow> pyfloat result" where
  "calculate_daily_average pf data =
     (case productions_loop pf data [] of
        Inl e \<Rightarrow> Inl e
      | Inr productions \<Rightarrow>
          if productions \<noteq> [] then statistics_mean productions else Inr (Fin 0))"

text \<open>In the words of the specification, for string productions: a record without the
  field counts as 0, and a production that does not parse is skipped.\<close>

definition parsed_production_spec :: "float_parser \<Rightarrow> production_record \<Rightarrow> pyfloat option" where
  "parsed_production_spec pf r =
     (case r ''production'' of None \<Rightarrow> Some (Fin 0) | Some (PStr s) \<Rightarrow> pf s | Some v \<Rightarrow> None)"

definition productions_spec :: "float_parser \<Rightarrow> production_record list \<Rightarrow> pyfloat list" where
  "productions_spec pf data = List.map_filter (parsed_production_spec pf) data"

subsection \<open>ProductionDataProcessor.get\_top\_days\<close>

text \<open>The dictionaries \<open>{'date': .., 'production': ..}\<close>.\<close>

record ranked_day =
  date :: pyval
  production :: pyfloat

fun valid_data_loop ::
  "float_parser \<Rightarrow> production_record list \<Rightarrow> ranked_day list \<Rightarrow> ranked_day list result"
where
  "valid_data_loop pf [] valid_data = Inr valid_data"
| "valid_data_loop pf (r # rest) valid_data =
     (case try_except_ValueError
             (case py_float pf (dict_get r ''production'' (PInt 0)) of
                Inl e \<Rightarrow> Inl e
              | Inr pval \<Rightarrow>
                  Inr (valid_data @ [\<lparr>date = dict_get r ''date'' (PStr ''Unknown''),
                                       production = pval\<rparr>]))
             (Inr valid_data)
      of
        Inl e \<Rightarrow> Inl e
      | Inr valid_data' \<Rightarrow> valid_data_loop pf rest valid_data')"

text \<open>The floats other than \<open>nan\<close> are linearly ordered; \<open>ord_key\<close> embeds them in the
  lexicographic order of pairs.\<close>

fun ord_key :: "pyfloat \<Rightarrow> nat \<times> real" where
  "ord_key NInf = (0, 0)"
| "ord_key (Fin x) = (1, x)"
| "ord_key PInf = (2, 0)"
| "ord_key NaN = (3, 0)"

text \<open>\<open>sorted(xs, key=k, reverse=True)\<close>: the list is reversed, sorted stably in
  ascending order of the key, and reversed again. When a key is \<open>nan\<close> the comparisons
  are no order, and the result depends on the runs and merges of the sort; it is the
  parameter \<open>nan_order\<close>.\<close>

definition sorted_reverse :: "('a list \<Rightarrow> 'a list) \<Rightarrow> ('a \<Rightarrow> pyfloat) \<Rightarrow> 'a list \<Rightarrow> 'a list" where
  "sorted_reverse nan_order k xs =
     (if list_ex (\<lambda>x. k x = NaN) xs then nan_order xs
      else rev (sort_key (\<lambda>x. ord_key (k x)) (rev xs)))"

definition get_top_days ::
  "float_parser \<Rightarrow> (ranked_day list \<Rightarrow> ranked_day list) \<Rightarrow> production_record list \<Rightarrow> int
   \<Rightarrow> ranked_day list result"
where
  "get_top_days pf nan_order data n =
     (case valid_data_loop pf data [] of
        Inl e \<Rightarrow> Inl e
      | Inr valid_data \<Rightarrow> Inr (slice_to (sorted_reverse nan_order production valid_data) n))"

text \<open>A call without the argument: \<open>n: int = 5\<close>.\<close>

definition get_top_days_default ::
  "float_parser \<Rightarrow> (ranked_day list \<Rightarrow> ranked_day list) \<Rightarrow> production_record list
   \<Rightarrow> ranked_day list result"
where
  "get_top_days_default pf nan_order data = get_top_days pf nan_order data 5"

text \<open>In the words of the specification: the ranked days before sorting.\<close>

definition parsed_days_spec :: "float_parser \<Rightarrow> production_record list \<Rightarrow> ranked_day list" where
  "parsed_days_spec pf data =
     List.map_filter
       (\<lambda>r. map_option
              (\<lambda>x. \<lparr>date = dict_get r ''date'' (PStr ''Unknown''), production = x\<rparr>)
              (parsed_production_spec pf r))
       data"

subsection \<open>TimeSeriesAnalyzer\<close>




fun anomalies_loop ::
  "pyfloat \<Rightarrow> pyfloat \<Rightarrow> pyfloat \<Rightarrow> nat \<Rightarrow> pyfloat list \<Rightarrow> nat list \<Rightarrow> nat list result"
where
  "anomalies_loop mean stdev threshold i [] anomalies = Inr anomalies"
| "anomalies_loop mean stdev threshold i (val # rest) anomalies =
     (case (if fgt stdev (Fin 0)
            then (case float_truediv (fsub val mean) stdev of
                    Inl e \<Rightarrow> Inl e
                  | Inr q \<Rightarrow> Inr (fabs q))
            else Inr (Fin 0))
      of
        Inl e \<Rightarrow> Inl e
      | Inr z_score \<Rightarrow>
          anomalies_loop mean stdev threshold (i + 1) rest
            (if fgt z_score threshold then anomalies @ [i] else anomalies))"

definition detect_anomalies :: "pyfloat list \<Rightarrow> pyfloat \<Rightarrow> nat list result" where
  "detect_anomalies data threshold =
     (if length data < 2 then Inr []
      else
        (case statistics_mean data of
           Inl e \<Rightarrow> Inl e
         | Inr mean \<Rightarrow>
             (case statistics_stdev data of
                Inl e \<Rightarrow> Inl e
              | Inr stdev \<Rightarrow> anomalies_loop mean stdev threshold 0 data [])))"

definition calculate_trend :: "pyfloat list \<Rightarrow> string result" where
  "calculate_trend data =
     (if length data < 2 then Inr ''insufficient_data''
      else
        (let mid = int (length data) div 2 in
         case statistics_mean (slice_to data mid) of
           Inl e \<Rightarrow> Inl e
         | Inr avg_first \<Rightarrow>
             (case statistics_mean (slice_from data mid) of
                Inl e \<Rightarrow> Inl e
              | Inr avg_second \<Rightarrow>
                  (case (if fgt avg_first (Fin 0)
                         then (case float_truediv (fsub avg_second avg_first) avg_first of
                                 Inl e \<Rightarrow> Inl e
                               | Inr q \<Rightarrow> Inr (fmul q (Fin 100)))
                         else Inr (Fin 0))
                   of
                     Inl e \<Rightarrow> Inl e
                   | Inr diff_percent \<Rightarrow>
                       Inr (if fgt diff_percent (Fin 5) then ''increasing''
                            else if flt diff_percent (Fin (- 5)) then ''decreasing''
                            else ''stable'')))))"

text \<open>The claims in exact arithmetic, on the values of a finite series: mean, sample
  standard deviation, z-score, the mean of a window and the percent change of the two
  halves.\<close>

definition mean_spec :: "real list \<Rightarrow> real" where
  "mean_spec xs = sum_list xs / real (length xs)"

definition stdev_spec :: "real list \<Rightarrow> real" where
  "stdev_spec xs = sqrt (sum_list (map (\<lambda>x. (x - mean_spec xs)\<^sup>2) xs) / real (length xs - 1))"

definition z_score_spec :: "real list \<Rightarrow> nat \<Rightarrow> real" where
  "z_score_spec xs i =
     (if stdev_spec xs > 0 then \<bar>xs ! i - mean_spec xs\<bar> / stdev_spec xs else 0)"


definition percent_change_spec :: "real list \<Rightarrow> real" where
  "percent_change_spec xs =
     (let mid = length xs div 2;
          mean1 = mean_spec (take mid xs);
          mean2 = mean_spec (drop mid xs)
      in if mean1 > 0 then (mean2 - mean1) / mean1 * 100 else 0)"

text \<open>The same quantities in the arithmetic of doubles: the z-score of a value for a
  given mean and deviation, the mean of a window, and the percent change of two means
  with the label it gets.\<close>

definition z_score_float :: "pyfloat \<Rightarrow> pyfloat \<Rightarrow> pyfloat \<Rightarrow> pyfloat" where
  "z_score_float m sd v = (if fgt sd (Fin 0) then fabs (fdiv (fsub v m) sd) else Fin 0)"


definition percent_change_float :: "pyfloat \<Rightarrow> pyfloat \<Rightarrow> pyfloat" where
  "percent_change_float m1 m2 =
     (if fgt m1 (Fin 0) then fmul (fdiv (fsub m2 m1) m1) (Fin 100) else Fin 0)"

definition trend_of_change :: "pyfloat \<Rightarrow> string" where
  "trend_of_change d =
     (if fgt d (Fin 5) then ''increasing''
      else if flt d (Fin (- 5)) then ''decreasing''
      else ''stable'')"

subsection \<open>LogFileAnalyzer\<close>

text \<open>\<open>str.upper\<close>, \<open>str.strip\<close> and the substring test \<open>needle in s\<close>.\<close>

definition upper_char :: "char \<Rightarrow> char" where
  "upper_char c =
     (case map_of (zip ''abcdefghijklmnopqrstuvwxyz'' ''ABCDEFGHIJKLMNOPQRSTUVWXYZ'') c of
        None \<Rightarrow> c
      | Some u \<Rightarrow> u)"

definition upper :: "string \<Rightarrow> string" where
  "upper s = map upper_char s"

definition is_space :: "char \<Rightarrow> bool" where
  "is_space c = (of_char c \<in> {9, 10, 11, 12, 13, 28, 29, 30, 31, 32, 133, (160::nat)})"

definition strip :: "string \<Rightarrow> string" where
  "strip s = rev (dropWhile is_space (rev (dropWhile is_space s)))"

fun starts_with :: "string \<Rightarrow> string \<Rightarrow> bool" where
  "starts_with [] s = True"
| "starts_with (p # ps) [] = False"
| "starts_with (p # ps) (c # cs) = (p = c \<and> starts_with ps cs)"

fun py_in :: "string \<Rightarrow> string \<Rightarrow> bool" where
  "py_in needle [] = (needle = [])"
| "py_in needle (c # cs) = (starts_with needle (c # cs) \<or> py_in needle cs)"

text \<open>\<open>counts[k] += 1\<close> on a \<open>defaultdict(int)\<close>.\<close>

definition increment :: "(string \<rightharpoonup> nat) \<Rightarrow> string \<Rightarrow> (string \<rightharpoonup> nat)" where
  "increment counts k = counts(k \<mapsto> (case counts k of None \<Rightarrow> 0 | Some c \<Rightarrow> c) + 1)"

fun count_loop :: "string list \<Rightarrow> (string \<rightharpoonup> nat) \<Rightarrow> (string \<rightharpoonup> nat)" where
  "count_loop [] counts = counts"
| "count_loop (entry # rest) counts =
     (let log_upper = upper entry in
      count_loop rest
        (if py_in ''ERROR'' log_upper then increment counts ''ERROR''
         else if py_in ''WARNING'' log_upper then increment counts ''WARNING''
         else if py_in ''INFO'' log_upper then increment counts ''INFO''
         else counts))"

definition count_by_level :: "string list \<Rightarrow> (string \<rightharpoonup> nat)" where
  "count_by_level logs = count_loop logs Map.empty"

definition extract_errors :: "string list \<Rightarrow> string list" where
  "extract_errors logs = map strip (filter (\<lambda>entry. py_in ''ERROR'' (upper entry)) logs)"

text \<open>\<open>re.search(pattern, s, flags)\<close>: the pattern is compiled under the flags first, and
  a pattern that does not compile raises (\<open>re.error\<close> for a syntax error, OverflowError
  for a repetition count that is too large) whatever the string is; then the compiled
  pattern is searched in the string. The engine is given by \<open>compile\<close> and \<open>search\<close>.\<close>

datatype re_flag = IGNORECASE | MULTILINE | DOTALL

record 'r re_engine =
  compile :: "string \<Rightarrow> re_flag set \<Rightarrow> 'r result"
  search :: "'r \<Rightarrow> string \<Rightarrow> bool"

definition re_search :: "'r re_engine \<Rightarrow> string \<Rightarrow> string \<Rightarrow> re_flag set \<Rightarrow> bool result" where
  "re_search re pattern s flags =
     (case compile re pattern flags of Inl e \<Rightarrow> Inl e | Inr r \<Rightarrow> Inr (search re r s))"

fun find_loop ::
  "'r re_engine \<Rightarrow> string \<Rightarrow> nat \<Rightarrow> string list \<Rightarrow> (nat \<times> string) list
   \<Rightarrow> (nat \<times> string) list result"
where
  "find_loop re pattern i [] matches = Inr matches"
| "find_loop re pattern i (entry # rest) matches =
     (case re_search re pattern entry {IGNORECASE} of
        Inl e \<Rightarrow> Inl e
      | Inr found \<Rightarrow>
          find_loop re pattern (i + 1) rest
            (if found then matches @ [(i + 1, strip entry)] else matches))"

definition find_pattern :: "'r re_engine \<Rightarrow> string list \<Rightarrow> string \<Rightarrow> (nat \<times> string) list result" where
  "find_pattern re logs pattern = find_loop re pattern 0 logs []"

text \<open>In the words of the specification: the severity of a line, by priority, and the
  numbered lines that a compiled pattern matches.\<close>

definition severity_spec :: "string \<Rightarrow> string option" where
  "severity_spec entry =
     (if py_in ''ERROR'' (upper entry) then Some ''ERROR''
      else if py_in ''WARNING'' (upper entry) then Some ''WARNING''
      else if py_in ''INFO'' (upper entry) then Some ''INFO''
      else None)"

definition severity_count_spec :: "string list \<Rightarrow> string \<Rightarrow> nat" where
  "severity_count_spec logs k = length (filter (\<lambda>entry. severity_spec entry = Some k) logs)"

fun matches_from_spec :: "'r re_engine \<Rightarrow> 'r \<Rightarrow> nat \<Rightarrow> string list \<Rightarrow> (nat \<times> string) list" where
  "matches_from_spec re r n [] = []"
| "matches_from_spec re r n (entry # rest) =
     (if search re r entry then [(n, strip entry)] else []) @ matches_from_spec re r (n + 1) rest"

text \<open>A regular-expression engine for the examples: the pattern \<open>(\<close> does not compile;
  a pattern of letters compiles to itself and, under IGNORECASE, matches as a substring
  whatever the case, and without the flag as a substring. On these patterns it agrees
  with \<open>re\<close>.\<close>

datatype example_regex = Literal string | Literal_ignoring_case string

definition example_engine :: "example_regex re_engine" where
  "example_engine =
     \<lparr>compile = (\<lambda>p flags.
          if p = ''('' then Inl ReError
          else if IGNORECASE \<in> flags then Inr (Literal_ignoring_case p)
          else Inr (Literal p)),
      search = (\<lambda>r s.
          case r of
            Literal p \<Rightarrow> py_in p s
          | Literal_ignoring_case p \<Rightarrow> py_in (upper p) (upper s))\<rparr>"

section \<open>Properties\<close>

subsection \<open>Slices, rounding and the example parser\<close>

lemma take_min_length: "take (min n (length xs)) xs = take n xs"
  by (cases "n \<le> length xs") (simp_all add: min_def)

lemma slice_to_nonneg: "0 \<le> j \<Longrightarrow> slice_to xs j = take (nat j) xs"
  by (simp add: slice_to_def slice_index_def take_min_length)

lemma slice_to_neg: "j < 0 \<Longrightarrow> slice_to xs j = take (length xs - nat (- j)) xs"
proof -
  assume "j < 0"
  then have "nat (int (length xs) + j) = length xs - nat (- j)" by linarith
  with \<open>j < 0\<close> show ?thesis by (simp add: slice_to_def slice_index_def)
qed

lemma slice_from_nonneg: "0 \<le> i \<Longrightarrow> slice_from xs i = drop (nat i) xs"
  by (cases "nat i \<le> length xs") (simp_all add: slice_from_def slice_index_def min_def)


text \<open>The equations that evaluate \<open>rnd\<close> on a numeral.\<close>

lemmas rnd_eval =
  rnd_def binade_def binade_up.simps binade_down.simps pow2_def round_half_even_def Let_def

lemma rnd_zero: "rnd 0 = Fin 0"
  by (simp add: rnd_def)

lemma int_to_float_zero: "int_to_float 0 = Inr (Fin 0)"
  by (simp add: int_to_float_def rnd_zero)

lemma rnd_small_ints:
  "rnd 1 = Fin 1" "rnd 2 = Fin 2" "rnd 3 = Fin 3" "rnd 4 = Fin 4" "rnd 5 = Fin 5"
  "rnd 10 = Fin 10" "rnd 20 = Fin 20" "rnd 30 = Fin 30" "rnd (- 5) = Fin (- 5)"
  by (simp_all add: rnd_eval)

lemma decimal_literal_examples:
  "decimal_literal ''-5'' = Some (Fin (- 5))"
  "decimal_literal ''abc'' = None"
  "decimal_literal ''10'' = Some (Fin 10)"
  "decimal_literal ''20'' = Some (Fin 20)"
  "decimal_literal ''30'' = Some (Fin 30)"
  by (simp_all add: decimal_literal_def unsigned_decimal_def is_digit_def rnd_small_ints)

lemma fgt_zero_nonzero: "fgt a (Fin 0) \<Longrightarrow> a \<noteq> Fin 0"
  by (auto simp: fgt_def)

subsection \<open>validate\_data\<close>

lemma validate_row_eq:
  "string_production r \<Longrightarrow>
   validate_row pf i r errors = Inr (errors @ row_errors_spec pf (i + 1) r)"
  by (cases "r ''production''")
     (auto simp: validate_row_def row_errors_spec_def subscript_def try_except_ValueError_def
           dom_def string_production_def split: pyval.splits option.splits)

lemma validate_loop_eq:
  "list_all string_production data \<Longrightarrow>
   validate_loop pf i data errors = Inr (errors @ validation_errors_from pf (i + 1) data)"
  by (induction data arbitrary: i errors) (simp_all add: validate_row_eq)

lemma validate_data_strings:
  "list_all string_production data \<Longrightarrow>
   validate_data pf data = Inr (validation_errors_spec pf data)"
  by (simp add: validate_data_def validate_loop_eq validation_errors_spec_def)

text \<open>
  Claim C4 asks that validation never raises on malformed input. For a row shorter than
  the header, \<open>csv.DictReader\<close> stores \<open>None\<close> under \<open>production\<close>; the key is present,
  \<open>float(None)\<close> raises TypeError, and \<open>except ValueError\<close> does not catch it: the call
  raises, and the error already found in row 1 is lost.
\<close>

theorem validate_data_short_row:
  "validate_data pf
     [[''date'' \<mapsto> PStr ''2024-01-01'', ''production'' \<mapsto> PStr ''-5'', ''well_id'' \<mapsto> PStr ''W1''],
      [''date'' \<mapsto> PStr ''2024-01-02'', ''production'' \<mapsto> PNone, ''well_id'' \<mapsto> PNone]]
   = Inl TypeError"
  by (cases "pf ''-5''")
     (simp_all add: validate_data_def validate_row_def subscript_def try_except_ValueError_def)

subsection \<open>calculate\_daily\_average\<close>

lemma production_step:
  "string_production r \<Longrightarrow>
   try_except_ValueError
     (case py_float pf (dict_get r ''production'' (PInt 0)) of
        Inl e \<Rightarrow> Inl e
      | Inr x \<Rightarrow> Inr (f x))
     (Inr acc)
   = Inr (case parsed_production_spec pf r of None \<Rightarrow> acc | Some x \<Rightarrow> f x)"
  by (cases "r ''production''")
     (auto simp: try_except_ValueError_def dict_get_def parsed_production_spec_def
           string_production_def int_to_float_zero split: pyval.splits option.splits)

lemma productions_loop_eq:
  "list_all string_production data \<Longrightarrow>
   productions_loop pf data acc = Inr (acc @ productions_spec pf data)"
proof (induction data arbitrary: acc)
  case Nil
  then show ?case by (simp add: productions_spec_def)
next
  case (Cons r rest)
  then show ?case
    by (cases "parsed_production_spec pf r")
       (simp_all add: production_step productions_spec_def)
qed

lemma calculate_daily_average_strings:
  "list_all string_production data \<Longrightarrow>
   calculate_daily_average pf data
   = Inr (if productions_spec pf data = [] then Fin 0 else mean_float (productions_spec pf data))"
  by (simp add: calculate_daily_average_def productions_loop_eq statistics_mean_def)

text \<open>
  Claim C5 asks that entries that do not parse are skipped without failing. For a row
  shorter than the header, \<open>row.get('production', 0)\<close> returns the stored \<open>None\<close> (the key
  is present, so the default is not used), \<open>float(None)\<close> raises TypeError, and
  \<open>except ValueError\<close> does not catch it: the call raises instead of returning the
  average of the other rows.
\<close>

theorem calculate_daily_average_short_row:
  "calculate_daily_average pf
     [[''date'' \<mapsto> PStr ''2024-01-01'', ''production'' \<mapsto> PStr ''10'', ''well_id'' \<mapsto> PStr ''W1''],
      [''date'' \<mapsto> PStr ''2024-01-02'', ''production'' \<mapsto> PNone, ''well_id'' \<mapsto> PNone]]
   = Inl TypeError"
  by (cases "pf ''10''")
     (simp_all add: calculate_daily_average_def dict_get_def try_except_ValueError_def)

subsection \<open>get\_top\_days\<close>

lemma valid_data_loop_eq:
  "list_all string_production data \<Longrightarrow>
   valid_data_loop pf data acc = Inr (acc @ parsed_days_spec pf data)"
proof (induction data arbitrary: acc)
  case Nil
  then show ?case by (simp add: parsed_days_spec_def)
next
  case (Cons r rest)
  then show ?case
    by (cases "parsed_production_spec pf r")
       (simp_all add: production_step parsed_days_spec_def)
qed

lemma parsed_days_spec_Cons:
  "parsed_days_spec pf (r # rest)
   = (case parsed_production_spec pf r of
        None \<Rightarrow> []
      | Some x \<Rightarrow> [\<lparr>date = dict_get r ''date'' (PStr ''Unknown''), production = x\<rparr>])
     @ parsed_days_spec pf rest"
  by (simp add: parsed_days_spec_def split: option.splits)

lemma ord_key_le: "a \<noteq> NaN \<Longrightarrow> b \<noteq> NaN \<Longrightarrow> (ord_key a \<le> ord_key b) = fle a b"
  by (cases a; cases b) (auto simp: fle_def)

lemma ord_key_inj: "(ord_key a = ord_key b) = (a = b)"
  by (cases a; cases b) simp_all

lemma sorted_reverse_sorted:
  assumes "\<not> list_ex (\<lambda>x. k x = NaN) xs"
  shows "sorted_wrt (\<lambda>a b. fle (k b) (k a)) (sorted_reverse nan_order k xs)"
proof -
  let ?ys = "sort_key (\<lambda>x. ord_key (k x)) (rev xs)"
  have nn: "\<forall>x \<in> set ?ys. k x \<noteq> NaN"
    using assms by (simp add: list_ex_iff)
  have "sorted (map (\<lambda>x. ord_key (k x)) ?ys)" by simp
  then have "sorted_wrt (\<lambda>a b. ord_key (k a) \<le> ord_key (k b)) ?ys"
    by (simp add: sorted_map)
  then have "sorted_wrt (\<lambda>a b. fle (k a) (k b)) ?ys"
    by (rule sorted_wrt_mono_rel [rotated]) (use nn in \<open>simp add: ord_key_le\<close>)
  then show ?thesis
    using assms by (simp add: sorted_reverse_def sorted_wrt_rev)
qed

lemma sorted_reverse_stable:
  assumes "\<not> list_ex (\<lambda>x. k x = NaN) xs"
  shows "filter (\<lambda>y. k y = v) (sorted_reverse nan_order k xs) = filter (\<lambda>y. k y = v) xs"
proof -
  have "filter (\<lambda>y. ord_key (k y) = ord_key v) (sort_key (\<lambda>x. ord_key (k x)) (rev xs))
        = filter (\<lambda>y. ord_key (k y) = ord_key v) (rev xs)"
    by (rule sort_key_stable)
  then have "filter (\<lambda>y. k y = v) (sort_key (\<lambda>x. ord_key (k x)) (rev xs))
             = filter (\<lambda>y. k y = v) (rev xs)"
    by (simp only: ord_key_inj)
  then have "rev (filter (\<lambda>y. k y = v) (sort_key (\<lambda>x. ord_key (k x)) (rev xs)))
             = filter (\<lambda>y. k y = v) xs"
    by (simp add: rev_filter)
  moreover have "filter (\<lambda>y. k y = v) (rev (sort_key (\<lambda>x. ord_key (k x)) (rev xs)))
                 = rev (filter (\<lambda>y. k y = v) (sort_key (\<lambda>x. ord_key (k x)) (rev xs)))"
    by (rule rev_filter [symmetric])
  moreover have "sorted_reverse nan_order k xs = rev (sort_key (\<lambda>x. ord_key (k x)) (rev xs))"
    using assms by (simp add: sorted_reverse_def)
  ultimately show ?thesis by simp
qed

lemma length_sorted_reverse:
  "\<not> list_ex (\<lambda>x. k x = NaN) xs \<Longrightarrow> length (sorted_reverse nan_order k xs) = length xs"
  by (simp add: sorted_reverse_def)

lemma get_top_days_eq:
  "list_all string_production data \<Longrightarrow>
   get_top_days pf nan_order data n
   = Inr (slice_to (sorted_reverse nan_order production (parsed_days_spec pf data)) n)"
  by (simp add: get_top_days_def valid_data_loop_eq)

lemma example_days:
  "parsed_days_spec decimal_literal
     [[''production'' \<mapsto> PStr ''10''], [''production'' \<mapsto> PStr ''30''],
      [''production'' \<mapsto> PStr ''20'']]
   = [\<lparr>date = PStr ''Unknown'', production = Fin 10\<rparr>,
      \<lparr>date = PStr ''Unknown'', production = Fin 30\<rparr>,
      \<lparr>date = PStr ''Unknown'', production = Fin 20\<rparr>]"
  by (simp add: parsed_days_spec_Cons parsed_production_spec_def decimal_literal_examples
        dict_get_def parsed_days_spec_def)

lemma example_ranking:
  "sorted_reverse nan_order production
     [\<lparr>date = PStr ''Unknown'', production = Fin 10\<rparr>,
      \<lparr>date = PStr ''Unknown'', production = Fin 30\<rparr>,
      \<lparr>date = PStr ''Unknown'', production = Fin 20\<rparr>]
   = [\<lparr>date = PStr ''Unknown'', production = Fin 30\<rparr>,
      \<lparr>date = PStr ''Unknown'', production = Fin 20\<rparr>,
      \<lparr>date = PStr ''Unknown'', production = Fin 10\<rparr>]"
  by (simp add: sorted_reverse_def)

lemma example_strings:
  "list_all string_production
     [[''production'' \<mapsto> PStr ''10''], [''production'' \<mapsto> PStr ''30''],
      [''production'' \<mapsto> PStr ''20'']]"
  by (simp add: string_production_def)

lemma example_top_days:
  "get_top_days decimal_literal nan_order
     [[''production'' \<mapsto> PStr ''10''], [''production'' \<mapsto> PStr ''30''],
      [''production'' \<mapsto> PStr ''20'']] n
   = Inr (slice_to [\<lparr>date = PStr ''Unknown'', production = Fin 30\<rparr>,
                    \<lparr>date = PStr ''Unknown'', production = Fin 20\<rparr>,
                    \<lparr>date = PStr ''Unknown'', production = Fin 10\<rparr>] n)"
  unfolding get_top_days_eq [OF example_strings] example_days example_ranking ..

text \<open>
  Claim C1, as stated, fails for a negative \<open>n\<close>: the slice \<open>sorted_data[:n]\<close> then drops
  the last \<open>|n|\<close> entries instead of giving the empty sequence. On the productions
  10, 30, 20 and \<open>n = -1\<close> the result is the two days 30, 20. It also fails on a row
  shorter than the header, whose production is \<open>None\<close>: \<open>float(None)\<close> raises TypeError.
\<close>

theorem get_top_days_negative_counterexample:
  "(- 1 :: int) \<le> 0
   \<and> get_top_days decimal_literal (\<lambda>xs. xs)
        [[''production'' \<mapsto> PStr ''10''], [''production'' \<mapsto> PStr ''30''],
         [''production'' \<mapsto> PStr ''20'']] (- 1)
      = Inr [\<lparr>date = PStr ''Unknown'', production = Fin 30\<rparr>,
             \<lparr>date = PStr ''Unknown'', production = Fin 20\<rparr>]
   \<and> get_top_days decimal_literal (\<lambda>xs. xs)
        [[''production'' \<mapsto> PStr ''10''], [''production'' \<mapsto> PStr ''30''],
         [''production'' \<mapsto> PStr ''20'']] (- 1)
      \<noteq> Inr []
   \<and> get_top_days decimal_literal (\<lambda>xs. xs)
        [[''date'' \<mapsto> PStr ''2024-01-02'', ''production'' \<mapsto> PNone]] 5
      = Inl TypeError"
proof (intro conjI)
  show "get_top_days decimal_literal (\<lambda>xs. xs)
        [[''production'' \<mapsto> PStr ''10''], [''production'' \<mapsto> PStr ''30''],
         [''production'' \<mapsto> PStr ''20'']] (- 1)
      = Inr [\<lparr>date = PStr ''Unknown'', production = Fin 30\<rparr>,
             \<lparr>date = PStr ''Unknown'', production = Fin 20\<rparr>]"
    by (simp add: example_top_days slice_to_neg)
  then show "get_top_days decimal_literal (\<lambda>xs. xs)
        [[''production'' \<mapsto> PStr ''10''], [''production'' \<mapsto> PStr ''30''],
         [''production'' \<mapsto> PStr ''20'']] (- 1)
      \<noteq> Inr []"
    by simp
  show "get_top_days decimal_literal (\<lambda>xs. xs)
        [[''date'' \<mapsto> PStr ''2024-01-02'', ''production'' \<mapsto> PNone]] 5
      = Inl TypeError"
    by (simp add: get_top_days_def dict_get_def try_except_ValueError_def)
qed simp

text \<open>
  Claim C1, amended. For every sequence of records whose production, when present, is a
  string, and in which no production parses to \<open>nan\<close>: \<open>get_top_days\<close> parses the
  production of each record (a record without the field counts as 0, a production that
  does not parse is skipped), sorts the days by production in descending order, days of
  equal production keeping their input order, and returns the first \<open>n\<close> of them when
  \<open>n \<ge> 0\<close>: nothing for \<open>n = 0\<close>, and \<open>n\<close> is 5 when it is not given. For a negative \<open>n\<close>
  it returns the sorted days without the last \<open>|n|\<close> of them.
\<close>

theorem get_top_days_correct:
  assumes "list_all string_production data"
    and "\<not> list_ex (\<lambda>d. production d = NaN) (parsed_days_spec pf data)"
  shows
  "get_top_days pf nan_order data n
   = Inr (if 0 \<le> n
          then take (nat n) (sorted_reverse nan_order production (parsed_days_spec pf data))
          else take (length (parsed_days_spec pf data) - nat (- n))
                 (sorted_reverse nan_order production (parsed_days_spec pf data)))
   \<and> sorted_wrt (\<lambda>a b. fle (production b) (production a))
        (sorted_reverse nan_order production (parsed_days_spec pf data))
   \<and> filter (\<lambda>d. production d = v) (sorted_reverse nan_order production (parsed_days_spec pf data))
       = filter (\<lambda>d. production d = v) (parsed_days_spec pf data)
   \<and> parsed_days_spec pf [] = []
   \<and> parsed_days_spec pf (r # rest)
       = (case r ''production'' of
            None \<Rightarrow> [\<lparr>date = dict_get r ''date'' (PStr ''Unknown''), production = Fin 0\<rparr>]
          | Some (PStr s) \<Rightarrow>
              (case pf s of
                 None \<Rightarrow> []
               | Some x \<Rightarrow> [\<lparr>date = dict_get r ''date'' (PStr ''Unknown''), production = x\<rparr>])
          | Some u \<Rightarrow> [])
         @ parsed_days_spec pf rest
   \<and> get_top_days pf nan_order data 0 = Inr []
   \<and> get_top_days_default pf nan_order data = get_top_days pf nan_order data 5"
proof (intro conjI)
  show "get_top_days pf nan_order data n
        = Inr (if 0 \<le> n
               then take (nat n) (sorted_reverse nan_order production (parsed_days_spec pf data))
               else take (length (parsed_days_spec pf data) - nat (- n))
                      (sorted_reverse nan_order production (parsed_days_spec pf data)))"
    using assms
    by (simp add: get_top_days_eq slice_to_nonneg slice_to_neg length_sorted_reverse)
  show "sorted_wrt (\<lambda>a b. fle (production b) (production a))
          (sorted_reverse nan_order production (parsed_days_spec pf data))"
    using assms(2) by (rule sorted_reverse_sorted)
  show "filter (\<lambda>d. production d = v) (sorted_reverse nan_order production (parsed_days_spec pf data))
        = filter (\<lambda>d. production d = v) (parsed_days_spec pf data)"
    using assms(2) by (rule sorted_reverse_stable)
  show "parsed_days_spec pf [] = []"
    by (simp add: parsed_days_spec_def)
  show "parsed_days_spec pf (r # rest)
        = (case r ''production'' of
             None \<Rightarrow> [\<lparr>date = dict_get r ''date'' (PStr ''Unknown''), production = Fin 0\<rparr>]
           | Some (PStr s) \<Rightarrow>
               (case pf s of
                  None \<Rightarrow> []
                | Some x \<Rightarrow> [\<lparr>date = dict_get r ''date'' (PStr ''Unknown''), production = x\<rparr>])
           | Some u \<Rightarrow> [])
          @ parsed_days_spec pf rest"
    by (simp add: parsed_days_spec_Cons parsed_production_spec_def
          split: option.splits pyval.splits)
  show "get_top_days pf nan_order data 0 = Inr []"
    using assms(1) by (simp add: get_top_days_eq slice_to_nonneg)
  show "get_top_days_default pf nan_order data = get_top_days pf nan_order data 5"
    by (simp add: get_top_days_default_def)
qed

theorem get_top_days_witness:
  "list_all string_production
     [[''production'' \<mapsto> PStr ''10''], [''production'' \<mapsto> PStr ''30''],
      [''production'' \<mapsto> PStr ''20'']]
   \<and> \<not> list_ex (\<lambda>d. production d = NaN)
         (parsed_days_spec decimal_literal
            [[''production'' \<mapsto> PStr ''10''], [''production'' \<mapsto> PStr ''30''],
             [''production'' \<mapsto> PStr ''20'']])
   \<and> get_top_days decimal_literal (\<lambda>xs. xs)
        [[''production'' \<mapsto> PStr ''10''], [''production'' \<mapsto> PStr ''30''],
         [''production'' \<mapsto> PStr ''20'']] 2
      = Inr [\<lparr>date = PStr ''Unknown'', production = Fin 30\<rparr>,
             \<lparr>date = PStr ''Unknown'', production = Fin 20\<rparr>]
   \<and> get_top_days decimal_literal (\<lambda>xs. xs)
        [[''production'' \<mapsto> PStr ''10''], [''production'' \<mapsto> PStr ''30''],
         [''production'' \<mapsto> PStr ''20'']] 0
      = Inr []"
proof -
  have s: "list_all string_production
     [[''production'' \<mapsto> PStr ''10''], [''production'' \<mapsto> PStr ''30''],
      [''production'' \<mapsto> PStr ''20'']]"
    by (rule example_strings)
  have n: "\<not> list_ex (\<lambda>d. production d = NaN)
         (parsed_days_spec decimal_literal
            [[''production'' \<mapsto> PStr ''10''], [''production'' \<mapsto> PStr ''30''],
             [''production'' \<mapsto> PStr ''20'']])"
    by (simp add: example_days)
  show ?thesis
    using s n get_top_days_correct [OF s n, of "\<lambda>xs. xs" 2]
    by (simp only: example_days example_ranking) simp
qed

subsection \<open>Rounding a number that is at least 1\<close>










subsection \<open>moving\_average\<close>











subsection \<open>detect\_anomalies\<close>

lemma z_score_step:
  "(if fgt sd (Fin 0)
    then (case float_truediv (fsub v m) sd of Inl e \<Rightarrow> Inl e | Inr q \<Rightarrow> Inr (fabs q))
    else Inr (Fin 0))
   = Inr (z_score_float m sd v)"
  by (auto simp: z_score_float_def float_truediv_def dest: fgt_zero_nonzero)

lemma anomalies_loop_eq:
  "anomalies_loop m sd t i xs acc
   = Inr (acc @ map (\<lambda>j. i + j)
                 (filter (\<lambda>j. fgt (z_score_float m sd (xs ! j)) t) [0..<length xs]))"
proof (induction xs arbitrary: i acc)
  case Nil
  then show ?case by simp
next
  case (Cons v rest)
  have shift: "[0..<length (v # rest)] = 0 # map Suc [0..<length rest]"
    by (simp add: upt_conv_Cons map_Suc_upt del: upt_Suc)
  show ?case
    unfolding shift anomalies_loop.simps z_score_step
    by (simp add: Cons.IH filter_map comp_def del: upt_Suc)
qed

lemma detect_anomalies_eq:
  assumes "2 \<le> length data" "statistics_stdev data = Inr sd"
  shows "detect_anomalies data t
         = Inr (filter (\<lambda>i. fgt (z_score_float (mean_float data) sd (data ! i)) t)
                  [0..<length data])"
proof -
  have ne: "data \<noteq> []" using assms(1) by auto
  show ?thesis
    using assms ne
    by (simp add: detect_anomalies_def statistics_mean_def anomalies_loop_eq del: upt_Suc)
qed

lemma detect_anomalies_error:
  assumes "2 \<le> length data" "statistics_stdev data = Inl e"
  shows "detect_anomalies data t = Inl e"
proof -
  have ne: "data \<noteq> []" using assms(1) by auto
  show ?thesis
    using assms ne by (simp add: detect_anomalies_def statistics_mean_def)
qed

lemma stdev_length: "statistics_stdev data = Inr sd \<Longrightarrow> 2 \<le> length data"
  by (auto simp: statistics_stdev_def split: if_splits)

lemma sample_variance_replicate: "sample_variance (replicate n c) = 0"
proof (cases "n = 0")
  case True
  then show ?thesis by (simp add: sample_variance_def)
next
  case False
  then have m: "sum_list (replicate n c) / real n = c"
    by (simp add: sum_list_replicate)
  have "map (\<lambda>x. (x - c)\<^sup>2) (replicate n c) = replicate n 0" by simp
  then have "sum_list (map (\<lambda>x. (x - c)\<^sup>2) (replicate n c)) = 0"
    by (simp add: sum_list_replicate)
  then show ?thesis
    by (simp add: sample_variance_def Let_def m del: map_replicate)
qed

lemma stdev_replicate:
  assumes "2 \<le> n"
  shows "statistics_stdev (replicate n (Fin c)) = Inr (Fin 0)"
proof -
  have f: "list_all is_finite (replicate n (Fin c))"
    by (simp add: list_all_iff)
  have v: "map fin_value (replicate n (Fin c)) = replicate n c" by simp
  show ?thesis
    using assms f unfolding statistics_stdev_def v sample_variance_replicate
    by (simp add: rnd_zero)
qed

lemma not_fgt_zero: "fle (Fin 0) t \<Longrightarrow> \<not> fgt (Fin 0) t"
  by (cases t) (auto simp: fle_def fgt_def)

text \<open>Two examples: one where every operation is exact, and one where the rounded
  z-score of the eight zeros equals the threshold that the exact z-score exceeds.\<close>

lemma detect_anomalies_small_example:
  "detect_anomalies [Fin 0, Fin 2, Fin 4] (Fin (1 / 2)) = Inr [0, 2]"
proof -
  have v: "sample_variance [0, 2, 4] = 2\<^sup>2"
    by (simp add: sample_variance_def power2_eq_square)
  have sd: "statistics_stdev [Fin 0, Fin 2, Fin 4] = Inr (Fin 2)"
    unfolding statistics_stdev_def by (simp add: v rnd_small_ints)
  have m: "mean_float [Fin 0, Fin 2, Fin 4] = Fin 2"
    by (simp add: mean_float_def rnd_small_ints)
  have r: "rnd (- 2) = Fin (- 2)" "rnd (- 1) = Fin (- 1)"
    by (simp_all add: rnd_eval)
  show ?thesis
    unfolding detect_anomalies_eq [of "[Fin 0, Fin 2, Fin 4]" "Fin 2", OF _ sd, simplified] m
    by (simp add: z_score_float_def fgt_def fsub_def rnd_small_ints r rnd_zero)
qed


lemma detect_anomalies_rounding_example:
  "detect_anomalies [Fin 0, Fin 0, Fin 0, Fin 0, Fin 0, Fin 0, Fin 0, Fin 0, Fin 1]
     (Fin (6004799503160661 / 18014398509481984))
   = Inr [8]"
proof -
  let ?d = "[Fin 0, Fin 0, Fin 0, Fin 0, Fin 0, Fin 0, Fin 0, Fin 0, Fin 1]"
  let ?sd = "Fin (6004799503160661 / 18014398509481984)"
  let ?m = "Fin (2001599834386887 / 18014398509481984)"
  have v: "sample_variance [0, 0, 0, 0, 0, 0, 0, 0, 1] = (1 / 3)\<^sup>2"
    by (simp add: sample_variance_def power2_eq_square)
  have r3: "rnd (1 / 3) = ?sd"
    by (simp add: rnd_eval)
  have sd: "statistics_stdev ?d = Inr ?sd"
    unfolding statistics_stdev_def by (simp add: v r3)
  have m: "mean_float ?d = ?m"
    by (simp add: mean_float_def) (simp add: rnd_eval)
  have z0: "z_score_float ?m ?sd (Fin 0) = ?sd"
    by (simp add: z_score_float_def fgt_def fsub_def) (simp add: rnd_eval)
  have z1: "z_score_float ?m ?sd (Fin 1) = Fin (6004799503160661 / 2251799813685248)"
    by (simp add: z_score_float_def fgt_def fsub_def) (simp add: rnd_eval)
  have len: "2 \<le> length ?d" by simp
  show ?thesis
    unfolding detect_anomalies_eq [OF len sd] m
    by (simp add: z0 z1 fgt_def)
qed

text \<open>
  Claim C6, as stated, fails on the z-score: the code rounds the quotient to a double
  before it compares it with the threshold. On eight zeros followed by 1, with the
  double next to 1/3 as threshold, the z-score of a zero is 1/3 and exceeds the
  threshold, yet only index 8 is returned.
\<close>

theorem detect_anomalies_rounding_counterexample:
  "(0 :: real) < 6004799503160661 / 18014398509481984
   \<and> 6004799503160661 / 18014398509481984 < z_score_spec [0, 0, 0, 0, 0, 0, 0, 0, 1] 0
   \<and> detect_anomalies [Fin 0, Fin 0, Fin 0, Fin 0, Fin 0, Fin 0, Fin 0, Fin 0, Fin 1]
        (Fin (6004799503160661 / 18014398509481984))
      = Inr [8]
   \<and> 0 \<notin> set [8 :: nat]"
proof -
  have m: "mean_spec [0, 0, 0, 0, 0, 0, 0, 0, 1] = 1 / 9"
    by (simp add: mean_spec_def)
  have "sum_list (map (\<lambda>x. (x - mean_spec [0, 0, 0, 0, 0, 0, 0, 0, 1])\<^sup>2)
                   [0, 0, 0, 0, 0, 0, 0, 0, 1]) / real (length [0, 0, 0, 0, 0, 0, 0, 0, 1 :: real] - 1)
        = (1 / 3)\<^sup>2"
    unfolding m by (simp add: power2_eq_square)
  then have sd: "stdev_spec [0, 0, 0, 0, 0, 0, 0, 0, 1] = 1 / 3"
    unfolding stdev_spec_def by (simp only: real_sqrt_abs)
  have z: "z_score_spec [0, 0, 0, 0, 0, 0, 0, 0, 1] 0 = 1 / 3"
    by (simp add: z_score_spec_def sd m)
  show ?thesis
    by (simp add: z detect_anomalies_rounding_example)
qed

text \<open>
  Claim C6, amended. For every series and threshold (a positive one in particular): a
  series of fewer than two values has no anomalies; otherwise \<open>detect_anomalies\<close> takes
  the mean and the sample standard deviation (denominator \<open>n - 1\<close>) of the whole series
  as \<open>statistics.mean\<close> and \<open>statistics.stdev\<close> return them, each rounded to a double;
  the z-score of a value is the double \<open>|(value - mean) / stdev|\<close>, computed in the
  arithmetic of doubles, when the deviation is positive and 0 otherwise; and the result
  is, in ascending order, exactly the indices whose z-score exceeds the threshold. When
  \<open>statistics.stdev\<close> raises (the deviation is beyond the doubles, or a value is not
  finite), \<open>detect_anomalies\<close> raises the same error.
\<close>

theorem detect_anomalies_correct:
  "(length data < 2 \<longrightarrow> detect_anomalies data threshold = Inr [])
   \<and> (2 \<le> length data \<and> statistics_stdev data = Inr sd \<longrightarrow>
        detect_anomalies data threshold
        = Inr (filter (\<lambda>i. fgt (z_score_float (mean_float data) sd (data ! i)) threshold)
                 [0..<length data]))
   \<and> (2 \<le> length data \<and> statistics_stdev data = Inl e \<longrightarrow>
        detect_anomalies data threshold = Inl e)
   \<and> sorted_wrt (<)
        (filter (\<lambda>i. fgt (z_score_float (mean_float data) sd (data ! i)) threshold)
           [0..<length data])
   \<and> z_score_float m sd v = (if fgt sd (Fin 0) then fabs (fdiv (fsub v m) sd) else Fin 0)
   \<and> (list_all is_finite data \<longrightarrow>
        mean_float data = rnd (sum_list (map fin_value data) / real (length data)))
   \<and> (2 \<le> length data \<and> list_all is_finite data
        \<and> rnd (sqrt (sample_variance (map fin_value data))) = Fin s \<longrightarrow>
        statistics_stdev data = Inr (Fin s))
   \<and> sample_variance vs
       = sum_list (map (\<lambda>x. (x - sum_list vs / real (length vs))\<^sup>2) vs) / real (length vs - 1)"
proof (intro conjI impI)
  assume "length data < 2"
  then show "detect_anomalies data threshold = Inr []"
    by (simp add: detect_anomalies_def)
next
  assume "2 \<le> length data \<and> statistics_stdev data = Inr sd"
  then show "detect_anomalies data threshold
             = Inr (filter (\<lambda>i. fgt (z_score_float (mean_float data) sd (data ! i)) threshold)
                      [0..<length data])"
    using detect_anomalies_eq by blast
next
  assume "2 \<le> length data \<and> statistics_stdev data = Inl e"
  then show "detect_anomalies data threshold = Inl e"
    using detect_anomalies_error by blast
next
  have "sorted_wrt (<) [0..<length data]"
    by (simp del: upt_Suc)
  then show "sorted_wrt (<)
        (filter (\<lambda>i. fgt (z_score_float (mean_float data) sd (data ! i)) threshold)
           [0..<length data])"
    by (rule sorted_wrt_filter)
next
  show "z_score_float m sd v = (if fgt sd (Fin 0) then fabs (fdiv (fsub v m) sd) else Fin 0)"
    by (simp add: z_score_float_def)
next
  assume "list_all is_finite data"
  then show "mean_float data = rnd (sum_list (map fin_value data) / real (length data))"
    by (simp add: mean_float_def)
next
  assume "2 \<le> length data \<and> list_all is_finite data
          \<and> rnd (sqrt (sample_variance (map fin_value data))) = Fin s"
  then show "statistics_stdev data = Inr (Fin s)"
    by (simp add: statistics_stdev_def)
next
  show "sample_variance vs
        = sum_list (map (\<lambda>x. (x - sum_list vs / real (length vs))\<^sup>2) vs) / real (length vs - 1)"
    by (simp add: sample_variance_def Let_def)
qed

theorem detect_anomalies_witness:
  "2 \<le> length [Fin 0, Fin 2, Fin 4]
   \<and> statistics_stdev [Fin 0, Fin 2, Fin 4] = Inr (Fin 2)
   \<and> detect_anomalies [Fin 0, Fin 2, Fin 4] (Fin (1 / 2)) = Inr [0, 2]
   \<and> length [Fin 7] < 2 \<and> detect_anomalies [Fin 7] (Fin (1 / 2)) = Inr []
   \<and> 2 \<le> length [Fin 1, NaN]
   \<and> statistics_stdev [Fin 1, NaN] = Inl AttributeError
   \<and> detect_anomalies [Fin 1, NaN] (Fin 2) = Inl AttributeError"
proof -
  have v: "sample_variance [0, 2, 4] = 2\<^sup>2"
    by (simp add: sample_variance_def power2_eq_square)
  have sd: "statistics_stdev [Fin 0, Fin 2, Fin 4] = Inr (Fin 2)"
    unfolding statistics_stdev_def by (simp add: v rnd_small_ints)
  have e: "statistics_stdev [Fin 1, NaN] = Inl AttributeError"
    by (simp add: statistics_stdev_def)
  show ?thesis
    using sd e
      detect_anomalies_correct [of "[Fin 0, Fin 2, Fin 4]" "Fin (1 / 2)" "Fin 2"]
      detect_anomalies_correct [of "[Fin 7]" "Fin (1 / 2)"]
      detect_anomalies_correct [of "[Fin 1, NaN]" "Fin 2" _ AttributeError]
    by (simp add: detect_anomalies_small_example)
qed

text \<open>
  Claim C2, as stated, fails for a negative threshold: on a constant series every
  z-score is 0, and 0 exceeds a negative threshold, so every index is reported.
\<close>

theorem detect_anomalies_constant_counterexample:
  "statistics_stdev [Fin 5, Fin 5, Fin 5, Fin 5] = Inr (Fin 0)
   \<and> detect_anomalies [Fin 5, Fin 5, Fin 5, Fin 5] (Fin (- 1)) = Inr [0, 1, 2, 3]
   \<and> detect_anomalies [Fin 5, Fin 5, Fin 5, Fin 5] (Fin (- 1)) \<noteq> Inr []"
proof -
  have sd: "statistics_stdev [Fin 5, Fin 5, Fin 5, Fin 5] = Inr (Fin 0)"
    using stdev_replicate [of 4 5] by (simp add: numeral_eq_Suc)
  have len: "2 \<le> length [Fin 5, Fin 5, Fin 5, Fin 5]" by simp
  have "detect_anomalies [Fin 5, Fin 5, Fin 5, Fin 5] (Fin (- 1)) = Inr [0, 1, 2, 3]"
    unfolding detect_anomalies_eq [OF len sd]
    by (simp add: z_score_float_def fgt_def)
  with sd show ?thesis by simp
qed

text \<open>
  Claim C2, amended. For every series whose sample standard deviation is 0 (a constant
  series of at least two values is one) and for every threshold that is not negative,
  \<open>detect_anomalies\<close> returns the empty sequence.
\<close>

theorem detect_anomalies_constant:
  "(statistics_stdev data = Inr (Fin 0) \<and> fle (Fin 0) threshold \<longrightarrow>
      detect_anomalies data threshold = Inr [])
   \<and> (2 \<le> n \<longrightarrow> statistics_stdev (replicate n (Fin c)) = Inr (Fin 0))
   \<and> (2 \<le> n \<and> fle (Fin 0) threshold \<longrightarrow>
        detect_anomalies (replicate n (Fin c)) threshold = Inr [])"
proof -
  have main: "detect_anomalies xs threshold = Inr []"
    if sd: "statistics_stdev xs = Inr (Fin 0)" and t: "fle (Fin 0) threshold" for xs
  proof -
    from sd have l: "2 \<le> length xs" by (rule stdev_length)
    have "filter (\<lambda>i. fgt (z_score_float (mean_float xs) (Fin 0) (xs ! i)) threshold)
            [0..<length xs] = []"
      using not_fgt_zero [OF t]
      by (simp add: z_score_float_def fgt_def filter_empty_conv del: upt_Suc)
    then show ?thesis using detect_anomalies_eq [OF l sd] by simp
  qed
  show ?thesis
    using main stdev_replicate by blast
qed

theorem detect_anomalies_constant_witness:
  "statistics_stdev [Fin 5, Fin 5, Fin 5, Fin 5] = Inr (Fin 0) \<and> fle (Fin 0) (Fin 2)
   \<and> detect_anomalies [Fin 5, Fin 5, Fin 5, Fin 5] (Fin 2) = Inr []
   \<and> (2 :: nat) \<le> 4 \<and> fle (Fin 0) (Fin 0)
   \<and> detect_anomalies (replicate 4 (Fin 5)) (Fin 0) = Inr []"
proof -
  have sd: "statistics_stdev [Fin 5, Fin 5, Fin 5, Fin 5] = Inr (Fin 0)"
    using stdev_replicate [of 4 5] by (simp add: numeral_eq_Suc)
  show ?thesis
    using sd detect_anomalies_constant [of "[Fin 5, Fin 5, Fin 5, Fin 5]" "Fin 2" 4 5]
      detect_anomalies_constant [of "[Fin 5, Fin 5, Fin 5, Fin 5]" "Fin 0" 4 5]
    by (simp add: fle_def)
qed

subsection \<open>calculate\_trend\<close>

lemma percent_change_step:
  "(if fgt m1 (Fin 0)
    then (case float_truediv (fsub m2 m1) m1 of
            Inl e \<Rightarrow> Inl e
          | Inr q \<Rightarrow> Inr (fmul q (Fin 100)))
    else Inr (Fin 0))
   = Inr (percent_change_float m1 m2)"
  by (auto simp: percent_change_float_def float_truediv_def dest: fgt_zero_nonzero)

lemma calculate_trend_eq:
  "calculate_trend data
   = Inr (if length data < 2 then ''insufficient_data''
          else trend_of_change
                 (percent_change_float (mean_float (take (length data div 2) data))
                    (mean_float (drop (length data div 2) data))))"
proof (cases "length data < 2")
  case True
  then show ?thesis by (simp add: calculate_trend_def)
next
  case False
  then have mid: "0 < length data div 2" "length data div 2 < length data" by auto
  have t: "slice_to data (int (length data) div 2) = take (length data div 2) data"
    by (simp add: slice_to_nonneg nat_div_distrib)
  have d: "slice_from data (int (length data) div 2) = drop (length data div 2) data"
    by (simp add: slice_from_nonneg nat_div_distrib)
  have ne: "take (length data div 2) data \<noteq> []" "drop (length data div 2) data \<noteq> []"
    using mid by auto
  show ?thesis
    using False ne
    unfolding calculate_trend_def Let_def t d statistics_mean_def
    by (simp add: percent_change_step trend_of_change_def)
qed

lemma calculate_trend_boundary_example:
  "calculate_trend [Fin 7, Fin 7, Fin 6, Fin 7, Fin 6, Fin 6] = Inr ''decreasing''"
proof -
  have m1: "mean_float [Fin 7, Fin 7, Fin 6] = Fin (7505999378950827 / 1125899906842624)"
    by (simp add: mean_float_def) (simp add: rnd_eval)
  have m2: "mean_float [Fin 7, Fin 6, Fin 6] = Fin (7130699410003285 / 1125899906842624)"
    by (simp add: mean_float_def) (simp add: rnd_eval)
  have p: "percent_change_float (Fin (7505999378950827 / 1125899906842624))
             (Fin (7130699410003285 / 1125899906842624))
           = Fin (- 2814749767106565 / 562949953421312)"
    by (simp add: percent_change_float_def fgt_def fsub_def) (simp add: rnd_eval)
  show ?thesis
    unfolding calculate_trend_eq
    by (simp add: m1 m2 p trend_of_change_def fgt_def)
qed

text \<open>
  Claim C7, as stated, fails at the boundary: the code compares the percent change as
  the arithmetic of doubles gives it. On 7, 7, 6, 7, 6, 6 the means are 20/3 and 19/3
  and the percent change is exactly -5, which is not below -5; the code computes
  -5.000000000000009 from the rounded means and returns "decreasing".
\<close>

theorem calculate_trend_boundary_counterexample:
  "2 \<le> length [7, 7, 6, 7, 6, 6 :: real]
   \<and> percent_change_spec [7, 7, 6, 7, 6, 6] = - 5
   \<and> \<not> percent_change_spec [7, 7, 6, 7, 6, 6] < - 5
   \<and> calculate_trend [Fin 7, Fin 7, Fin 6, Fin 7, Fin 6, Fin 6] = Inr ''decreasing''"
proof -
  have "percent_change_spec [7, 7, 6, 7, 6, 6] = - 5"
    by (simp add: percent_change_spec_def mean_spec_def)
  then show ?thesis
    by (simp add: calculate_trend_boundary_example)
qed

text \<open>
  Claim C7, amended. For every series, \<open>calculate_trend\<close> returns "insufficient\_data" for
  fewer than two values; otherwise it splits the series at \<open>mid = len div 2\<close> into the
  halves \<open>[0, mid)\<close> and \<open>[mid, len)\<close>, takes the mean of each as \<open>statistics.mean\<close>
  returns it (for finite values the exact mean rounded to a double), sets the percent
  change to \<open>(mean2 - mean1) / mean1 * 100\<close>, each operation rounded to a double, when
  \<open>mean1 > 0\<close> and to 0 otherwise, and returns "increasing" when that double is above 5,
  "decreasing" when it is below -5 and "stable" otherwise.
\<close>

theorem calculate_trend_correct:
  "calculate_trend data
   = Inr (if length data < 2 then ''insufficient_data''
          else trend_of_change
                 (percent_change_float (mean_float (take (length data div 2) data))
                    (mean_float (drop (length data div 2) data))))
   \<and> percent_change_float m1 m2
       = (if fgt m1 (Fin 0) then fmul (fdiv (fsub m2 m1) m1) (Fin 100) else Fin 0)
   \<and> trend_of_change d
       = (if fgt d (Fin 5) then ''increasing''
          else if flt d (Fin (- 5)) then ''decreasing''
          else ''stable'')
   \<and> (list_all is_finite xs \<longrightarrow>
        mean_float xs = rnd (sum_list (map fin_value xs) / real (length xs)))"
  by (simp add: calculate_trend_eq percent_change_float_def trend_of_change_def mean_float_def)

theorem calculate_trend_witness:
  "calculate_trend [Fin 100, Fin 110, Fin 120, Fin 130, Fin 140] = Inr ''increasing''
   \<and> calculate_trend [Fin 140, Fin 130, Fin 120, Fin 110, Fin 100] = Inr ''decreasing''
   \<and> calculate_trend [Fin 100, Fin 102, Fin 101, Fin 103, Fin 102] = Inr ''stable''
   \<and> calculate_trend [Fin 100] = Inr ''insufficient_data''
   \<and> list_all is_finite [Fin 100, Fin 110]
   \<and> mean_float [Fin 100, Fin 110] = Fin 105"
proof -
  have m: "mean_float [Fin 100, Fin 110] = Fin 105"
       "mean_float [Fin 120, Fin 130, Fin 140] = Fin 130"
       "mean_float [Fin 140, Fin 130] = Fin 135"
       "mean_float [Fin 120, Fin 110, Fin 100] = Fin 110"
       "mean_float [Fin 100, Fin 102] = Fin 101"
       "mean_float [Fin 101, Fin 103, Fin 102] = Fin 102"
    by (simp_all add: mean_float_def) (simp_all add: rnd_eval)
  have p: "fgt (percent_change_float (Fin 105) (Fin 130)) (Fin 5)"
    by (simp add: percent_change_float_def fgt_def fsub_def) (simp add: rnd_eval)
  have q: "flt (percent_change_float (Fin 135) (Fin 110)) (Fin (- 5))"
       "\<not> fgt (percent_change_float (Fin 135) (Fin 110)) (Fin 5)"
    by (simp_all add: percent_change_float_def fgt_def fsub_def) (simp_all add: rnd_eval)
  have s: "\<not> flt (percent_change_float (Fin 101) (Fin 102)) (Fin (- 5))"
       "\<not> fgt (percent_change_float (Fin 101) (Fin 102)) (Fin 5)"
    by (simp_all add: percent_change_float_def fgt_def fsub_def) (simp_all add: rnd_eval)
  show ?thesis
    using
      calculate_trend_correct [of "[Fin 100, Fin 110, Fin 120, Fin 130, Fin 140]", THEN conjunct1]
      calculate_trend_correct [of "[Fin 140, Fin 130, Fin 120, Fin 110, Fin 100]", THEN conjunct1]
      calculate_trend_correct [of "[Fin 100, Fin 102, Fin 101, Fin 103, Fin 102]", THEN conjunct1]
      calculate_trend_correct [of "[Fin 100]", THEN conjunct1]
    by (simp add: m p q s trend_of_change_def)
qed

subsection \<open>count\_by\_level and extract\_errors\<close>

lemma count_loop_step:
  "count_loop (entry # rest) counts =
     count_loop rest (case severity_spec entry of None \<Rightarrow> counts | Some s \<Rightarrow> increment counts s)"
  by (simp add: severity_spec_def Let_def)

lemma severity_count_Cons:
  "severity_count_spec (entry # rest) k =
     (if severity_spec entry = Some k then 1 else 0) + severity_count_spec rest k"
  by (simp add: severity_count_spec_def)

lemma count_loop_eq:
  "count_loop logs counts k =
     (if severity_count_spec logs k = 0 then counts k
      else Some ((case counts k of None \<Rightarrow> 0 | Some c \<Rightarrow> c) + severity_count_spec logs k))"
proof (induction logs arbitrary: counts)
  case Nil
  then show ?case by (simp add: severity_count_spec_def)
next
  case (Cons entry rest)
  show ?case
  proof (cases "severity_spec entry")
    case None
    then show ?thesis
      unfolding count_loop_step severity_count_Cons by (simp add: Cons.IH)
  next
    case (Some s)
    then show ?thesis
      unfolding count_loop_step severity_count_Cons
      by (cases "s = k") (simp_all add: Cons.IH increment_def)
  qed
qed

lemma count_by_level_eq:
  "count_by_level logs k =
     (if severity_count_spec logs k = 0 then None else Some (severity_count_spec logs k))"
  by (simp add: count_by_level_def count_loop_eq)

lemma severity_error_iff:
  "severity_spec entry = Some ''ERROR'' \<longleftrightarrow> py_in ''ERROR'' (upper entry)"
  by (simp add: severity_spec_def)

lemma example_severities:
  "severity_spec ''10:00 INFO a'' = Some ''INFO''"
  "severity_spec ''10:05 error b'' = Some ''ERROR''"
  "severity_spec ''10:10 WARNING c'' = Some ''WARNING''"
  "severity_spec ''10:15 ERROR after WARNING d'' = Some ''ERROR''"
  "severity_spec ''10:20 debug e'' = None"
  by (simp_all add: severity_spec_def upper_def upper_char_def)

text \<open>
  Claim C8. For every sequence of log lines, \<open>count_by_level\<close> puts each line in at most
  one severity: the first of ERROR, WARNING, INFO that occurs in the upper-cased line
  (a line with both ERROR and WARNING counts as ERROR only), and no severity when none
  occurs. The mapping it returns holds, for each severity, the number of its lines, and
  has a key only for a severity that some line has.
\<close>

theorem count_by_level_correct:
  "count_by_level logs k
   = (if severity_count_spec logs k = 0 then None else Some (severity_count_spec logs k))
   \<and> (k \<in> dom (count_by_level logs)) = (\<exists>entry \<in> set logs. severity_spec entry = Some k)
   \<and> severity_count_spec logs k = length (filter (\<lambda>entry. severity_spec entry = Some k) logs)
   \<and> (py_in ''ERROR'' (upper entry) \<longrightarrow> severity_spec entry = Some ''ERROR'')
   \<and> (\<not> py_in ''ERROR'' (upper entry) \<and> py_in ''WARNING'' (upper entry) \<longrightarrow>
        severity_spec entry = Some ''WARNING'')
   \<and> (\<not> py_in ''ERROR'' (upper entry) \<and> \<not> py_in ''WARNING'' (upper entry)
        \<and> py_in ''INFO'' (upper entry) \<longrightarrow>
        severity_spec entry = Some ''INFO'')
   \<and> (\<not> py_in ''ERROR'' (upper entry) \<and> \<not> py_in ''WARNING'' (upper entry)
        \<and> \<not> py_in ''INFO'' (upper entry) \<longrightarrow>
        severity_spec entry = None)"
proof (intro conjI)
  show "count_by_level logs k
        = (if severity_count_spec logs k = 0 then None else Some (severity_count_spec logs k))"
    by (rule count_by_level_eq)
  show "(k \<in> dom (count_by_level logs)) = (\<exists>entry \<in> set logs. severity_spec entry = Some k)"
    by (auto simp: dom_def count_by_level_eq severity_count_spec_def filter_empty_conv)
  show "severity_count_spec logs k = length (filter (\<lambda>entry. severity_spec entry = Some k) logs)"
    by (simp add: severity_count_spec_def)
qed (simp_all add: severity_spec_def)

theorem count_by_level_witness:
  "count_by_level [''10:00 INFO a'', ''10:05 error b'', ''10:10 WARNING c'',
                   ''10:15 ERROR after WARNING d'', ''10:20 debug e''] ''ERROR'' = Some 2
   \<and> count_by_level [''10:00 INFO a'', ''10:05 error b'', ''10:10 WARNING c'',
                   ''10:15 ERROR after WARNING d'', ''10:20 debug e''] ''WARNING'' = Some 1
   \<and> ''INFO'' \<notin> dom (count_by_level [''10:05 error b'', ''10:20 debug e''])
   \<and> py_in ''ERROR'' (upper ''10:15 ERROR after WARNING d'')
   \<and> py_in ''WARNING'' (upper ''10:15 ERROR after WARNING d'')
   \<and> severity_spec ''10:15 ERROR after WARNING d'' = Some ''ERROR''"
  using
    count_by_level_correct [of "[''10:00 INFO a'', ''10:05 error b'', ''10:10 WARNING c'',
                   ''10:15 ERROR after WARNING d'', ''10:20 debug e'']" "''ERROR''"
                   "''10:15 ERROR after WARNING d''"]
    count_by_level_correct [of "[''10:00 INFO a'', ''10:05 error b'', ''10:10 WARNING c'',
                   ''10:15 ERROR after WARNING d'', ''10:20 debug e'']" "''WARNING''"]
    count_by_level_correct [of "[''10:05 error b'', ''10:20 debug e'']" "''INFO''"]
  by (simp add: example_severities upper_def upper_char_def)

text \<open>
  Claim C10. For every sequence of log lines, \<open>extract_errors\<close> returns as many lines as
  \<open>count_by_level\<close> counts under the key ERROR, the count being 0 when the key is absent.
\<close>

theorem extract_errors_count:
  "length (extract_errors logs)
   = (case count_by_level logs ''ERROR'' of None \<Rightarrow> 0 | Some c \<Rightarrow> c)"
  by (simp add: count_by_level_eq extract_errors_def severity_count_spec_def severity_error_iff)

theorem extract_errors_count_witness:
  "length (extract_errors [''10:00 INFO a'', ''10:05 error b'', ''10:15 ERROR after WARNING d'']) = 2
   \<and> count_by_level [''10:00 INFO a'', ''10:05 error b'', ''10:15 ERROR after WARNING d''] ''ERROR''
      = Some 2
   \<and> length (extract_errors [''10:00 INFO a'']) = 0
   \<and> count_by_level [''10:00 INFO a''] ''ERROR'' = None"
  using
    extract_errors_count [of "[''10:00 INFO a'', ''10:05 error b'', ''10:15 ERROR after WARNING d'']"]
    extract_errors_count [of "[''10:00 INFO a'']"]
  by (simp add: count_by_level_eq severity_count_spec_def example_severities)

subsection \<open>find\_pattern\<close>

lemma find_loop_valid:
  "compile re pattern {IGNORECASE} = Inr r \<Longrightarrow>
   find_loop re pattern i logs acc = Inr (acc @ matches_from_spec re r (i + 1) logs)"
  by (induction logs arbitrary: i acc) (simp_all add: re_search_def)

lemma find_loop_invalid:
  "compile re pattern {IGNORECASE} = Inl e \<Longrightarrow> logs \<noteq> [] \<Longrightarrow>
   find_loop re pattern i logs acc = Inl e"
  by (cases logs) (simp_all add: re_search_def)

lemma matches_from_spec_shift:
  "matches_from_spec re r n logs
   = map (\<lambda>i. (n + i, strip (logs ! i))) (filter (\<lambda>i. search re r (logs ! i)) [0..<length logs])"
proof (induction logs arbitrary: n)
  case Nil
  then show ?case by simp
next
  case (Cons entry rest)
  have shift: "[0..<length (entry # rest)] = 0 # map Suc [0..<length rest]"
    by (simp add: upt_conv_Cons map_Suc_upt del: upt_Suc)
  show ?case
    unfolding shift by (simp add: Cons.IH filter_map comp_def del: upt_Suc)
qed

text \<open>
  Claim C9, as stated, fails on an empty sequence of log lines: the loop never calls
  \<open>re.search\<close>, so an invalid pattern is not noticed and the result is the empty list.
\<close>

theorem find_pattern_invalid_counterexample:
  "compile example_engine ''('' {IGNORECASE} = Inl ReError
   \<and> find_pattern example_engine [] ''('' = Inr []
   \<and> find_pattern example_engine [] ''('' \<noteq> Inl ReError"
  by (simp add: example_engine_def find_pattern_def)

text \<open>
  Claim C9, amended. For every sequence of log lines that is not empty and every pattern
  that does not compile under the flag IGNORECASE, \<open>find_pattern\<close> raises the error of
  the compilation (\<open>re.error\<close> for an invalid pattern) to its caller; on the empty
  sequence it returns the empty list whatever the pattern is. For every pattern that
  compiles under IGNORECASE it returns, in input order, the pairs of the 1-based line
  number and the stripped line of exactly the lines in which the pattern so compiled,
  that is ignoring case, is found.
\<close>

theorem find_pattern_correct:
  "(compile re pattern {IGNORECASE} = Inl e \<and> logs \<noteq> [] \<longrightarrow>
      find_pattern re logs pattern = Inl e)
   \<and> find_pattern re [] pattern = Inr []
   \<and> (compile re pattern {IGNORECASE} = Inr r \<longrightarrow>
        find_pattern re logs pattern
        = Inr (map (\<lambda>i. (i + 1, strip (logs ! i)))
                 (filter (\<lambda>i. search re r (logs ! i)) [0..<length logs])))"
proof (intro conjI impI)
  assume "compile re pattern {IGNORECASE} = Inl e \<and> logs \<noteq> []"
  then show "find_pattern re logs pattern = Inl e"
    by (simp add: find_pattern_def find_loop_invalid)
next
  show "find_pattern re [] pattern = Inr []"
    by (simp add: find_pattern_def)
next
  assume "compile re pattern {IGNORECASE} = Inr r"
  then show "find_pattern re logs pattern
        = Inr (map (\<lambda>i. (i + 1, strip (logs ! i)))
                 (filter (\<lambda>i. search re r (logs ! i)) [0..<length logs]))"
    using matches_from_spec_shift [of re r 1 logs]
    by (simp add: find_pattern_def find_loop_valid add.commute)
qed

theorem find_pattern_witness:
  "compile example_engine ''('' {IGNORECASE} = Inl ReError \<and> [''10:05 error b''] \<noteq> []
   \<and> find_pattern example_engine [''10:05 error b''] ''('' = Inl ReError
   \<and> compile example_engine ''error'' {IGNORECASE} = Inr (Literal_ignoring_case ''error'')
   \<and> find_pattern example_engine
       [''10:00 INFO a  '', ''10:05 ERROR b  '', ''10:10 WARNING c'', ''  10:15 Error d'']
       ''error''
     = Inr [(2, ''10:05 ERROR b''), (4, ''10:15 Error d'')]"
  using
    find_pattern_correct [of example_engine "''(''" ReError "[''10:05 error b'']"]
    find_pattern_correct [of example_engine "''error''" _
       "[''10:00 INFO a  '', ''10:05 ERROR b  '', ''10:10 WARNING c'', ''  10:15 Error d'']"
       "Literal_ignoring_case ''error''"]
  by (simp add: example_engine_def upper_def upper_char_def strip_def is_space_def)

end
